theory Spec2Isabelle
  imports Main "HOL-Library.Sublist"
begin

section \<open>JavaScript values and the browser globals\<close>

text \<open>
  The provider of \<^verbatim>\<open>src/src/provider.tsx\<close> reads and writes two globals,
  \<^verbatim>\<open>window.Intercom\<close> and \<^verbatim>\<open>window.intercomSettings\<close>, keeps a ref
  \<^verbatim>\<open>isBooted\<close>, a state \<^verbatim>\<open>ping\<close> and a ref \<^verbatim>\<open>start\<close>, and owns one
  \<^verbatim>\<open>useInterval\<close> hook. Settings objects are finite maps from keys to values; the object
  spread \<^verbatim>\<open>{...a, ...b}\<close> is \<open>a ++ b\<close>, where the keys of \<open>b\<close> win.
\<close>

datatype jsval = Undefined | Str string | Num int | Bool bool

type_synonym settings = "string \<rightharpoonup> jsval"

datatype arg = Settings settings | Value jsval | Callback string

text \<open>
  \<^verbatim>\<open>window.Intercom\<close> is tested in two ways: for truthiness (\<^verbatim>\<open>!window.Intercom\<close>) and
  for being a function (\<^verbatim>\<open>typeof window.Intercom === 'function'\<close>).
\<close>

datatype handle = Falsy | Truthy_not_callable | Callable

datatype error = VendorNotLoaded

text \<open>
  What the provider does to the outside is recorded in order. \<open>Forwarded c as b\<close> is one
  invocation \<^verbatim>\<open>window.Intercom(c, ...as)\<close>; its flag \<open>b\<close> is a history variable, the value of
  \<^verbatim>\<open>isBooted.current\<close> at that moment, which no operation reads.
\<close>

datatype event =
    Forwarded string "arg list" bool
  | Logged string string
  | Initialized string "int option"
  | Called string
  | Thrown error

section \<open>The polling primitive \<^verbatim>\<open>useInterval\<close>\<close>

text \<open>
  The hook keeps the ref \<^verbatim>\<open>savedCallback\<close> (\<open>None\<close> is the initial \<^verbatim>\<open>() => {}\<close>), the
  dependency arrays of its two effects as of the last render (\<open>None\<close> before the first), and
  the timer that the cleanup of the second effect would clear. A timer is its id, its delay
  and the milliseconds elapsed since it was armed or last fired. The calls to the platform's
  \<^verbatim>\<open>setInterval\<close> and \<^verbatim>\<open>clearInterval\<close> are recorded.
\<close>

datatype timer_call = SetInterval nat int | ClearInterval nat

record 'cb interval_hook =
  savedCallback :: "'cb option"
  callbackDep :: "'cb option"
  delayDep :: "int option option"
  timer :: "(nat \<times> int \<times> nat) option"
  nextId :: nat
  timerCalls :: "timer_call list"

definition initial_hook :: "'cb interval_hook" where
  "initial_hook =
     \<lparr>savedCallback = None, callbackDep = None, delayDep = None, timer = None, nextId = 0,
      timerCalls = []\<rparr>"

text \<open>
  One render of \<^verbatim>\<open>useInterval(callback, delay)\<close> followed by its effects. The first effect
  runs when \<^verbatim>\<open>callback\<close> changed and stores it. The second runs when \<^verbatim>\<open>delay\<close> changed:
  the cleanup of its previous run clears the old timer, then a timer is armed unless the
  delay is \<^verbatim>\<open>null\<close>.
\<close>

definition useInterval :: "'cb \<Rightarrow> int option \<Rightarrow> 'cb interval_hook \<Rightarrow> 'cb interval_hook" where
  "useInterval callback delay h =
     (let h1 = (if callbackDep h = Some callback then h
                else h\<lparr>savedCallback := Some callback, callbackDep := Some callback\<rparr>)
      in if delayDep h1 = Some delay then h1
         else
           let h2 = (case timer h1 of
                       None \<Rightarrow> h1
                     | Some (i, _, _) \<Rightarrow>
                         h1\<lparr>timer := None, timerCalls := timerCalls h1 @ [ClearInterval i]\<rparr>)
           in (case delay of
                 Some ms \<Rightarrow>
                   h2\<lparr>delayDep := Some delay, timer := Some (nextId h2, ms, 0),
                      nextId := Suc (nextId h2),
                      timerCalls := timerCalls h2 @ [SetInterval (nextId h2) ms]\<rparr>
               | None \<Rightarrow> h2\<lparr>delayDep := Some delay\<rparr>))"

text \<open>\<^verbatim>\<open>tick\<close> calls \<^verbatim>\<open>savedCallback.current()\<close>: it yields the callback to run.\<close>

definition tick :: "'cb interval_hook \<Rightarrow> 'cb option" where
  "tick h = savedCallback h"

text \<open>
  The platform timer, one millisecond at a time: an armed timer fires when its delay has
  elapsed (at least one millisecond) and starts counting again.
\<close>

definition timer_due :: "'cb interval_hook \<Rightarrow> bool" where
  "timer_due h = (case timer h of None \<Rightarrow> False | Some (i, ms, e) \<Rightarrow> ms \<le> int (Suc e))"

definition timer_step :: "'cb interval_hook \<Rightarrow> 'cb interval_hook" where
  "timer_step h =
     (case timer h of
        None \<Rightarrow> h
      | Some (i, ms, e) \<Rightarrow>
          if ms \<le> int (Suc e) then h\<lparr>timer := Some (i, ms, 0)\<rparr>
          else h\<lparr>timer := Some (i, ms, Suc e)\<rparr>)"

text \<open>
  The life of a mounted hook: it is rendered with a callback and a delay, or a millisecond
  passes.
\<close>

datatype 'cb hook_event = Render 'cb "int option" | Millisecond

fun hook_step :: "'cb hook_event \<Rightarrow> 'cb interval_hook \<Rightarrow> 'cb interval_hook" where
  "hook_step (Render callback delay) h = useInterval callback delay h"
| "hook_step Millisecond h = timer_step h"

definition hook_run :: "'cb hook_event list \<Rightarrow> 'cb interval_hook \<Rightarrow> 'cb interval_hook" where
  "hook_run evs h = fold hook_step evs h"

text \<open>
  The timers of the platform that are alive after a sequence of calls: those set and not
  cleared since.
\<close>

fun timer_effect :: "timer_call \<Rightarrow> (nat \<times> int) list \<Rightarrow> (nat \<times> int) list" where
  "timer_effect (SetInterval i ms) ts = ts @ [(i, ms)]"
| "timer_effect (ClearInterval i) ts = filter (\<lambda>t. fst t \<noteq> i) ts"

definition live_timers :: "timer_call list \<Rightarrow> (nat \<times> int) list" where
  "live_timers calls = fold timer_effect calls []"

text \<open>
  What holds of a hook between renders: the ref holds the callback of the last render, a
  timer is armed exactly when the delay of the last render was a number, with that delay,
  and it is the only timer alive.
\<close>

definition hook_ok :: "'cb interval_hook \<Rightarrow> bool" where
  "hook_ok h =
     (savedCallback h = callbackDep h
      \<and> (case delayDep h of
            Some (Some ms) \<Rightarrow> (case timer h of None \<Rightarrow> False | Some (i, d, e) \<Rightarrow> d = ms)
          | _ \<Rightarrow> timer h = None)
      \<and> live_timers (timerCalls h)
          = (case timer h of None \<Rightarrow> [] | Some (i, ms, e) \<Rightarrow> [(i, ms)]))"

section \<open>The provider\<close>

text \<open>
  The props of \<^verbatim>\<open>IntercomProvider\<close> after defaulting. A callback prop is modelled by whether
  it was supplied; \<open>rest\<close> holds the names of the props that are not recognised.
\<close>

record props =
  appId :: string
  autoBoot :: bool
  onHide :: bool
  onShow :: bool
  onUnreadCountChange :: bool
  onInitialize :: bool
  onBoot :: bool
  shouldInitialize :: bool
  apiBase :: "string option"
  initializeDelay :: "int option"
  externalIntercom :: bool
  externalIntercomFallback :: bool
  externalIntercomFallbackDelay :: int
  rest :: "string list"

text \<open>
  What the provider imports and this development leaves open: the constants \<^verbatim>\<open>isSSR\<close> and
  \<^verbatim>\<open>__DEV__\<close>, the value the vendor function returns for a command, and the mapper
  \<^verbatim>\<open>mapIntercomPropsToRawIntercomProps\<close> of \<^verbatim>\<open>./mappers\<close>.
\<close>

record 'i env =
  isSSR :: bool
  DEV :: bool
  vendor :: "string \<Rightarrow> arg list \<Rightarrow> jsval"
  mapIntercomPropsToRawIntercomProps :: "'i \<Rightarrow> settings"

record world =
  Intercom :: handle
  intercomSettings :: "settings option"
  isBooted :: bool
  ping :: bool
  start :: int
  clock :: int
  interval :: "props interval_hook"
  events :: "event list"

text \<open>
  A function of the provider takes the world and returns it changed, with the value it
  returned (\<open>Inr\<close>) or the error it threw (\<open>Inl\<close>); the world of a throw is the world at the
  throw.
\<close>

type_synonym action = "world \<Rightarrow> (error + jsval) \<times> world"

definition ret :: "jsval \<Rightarrow> action" where
  "ret v w = (Inr v, w)"

definition andThen :: "action \<Rightarrow> (jsval \<Rightarrow> action) \<Rightarrow> action" where
  "andThen m f w = (case m w of (Inl e, w') \<Rightarrow> (Inl e, w') | (Inr v, w') \<Rightarrow> f v w')"

definition spreadOpt :: "settings option \<Rightarrow> settings" where
  "spreadOpt s = (case s of None \<Rightarrow> Map.empty | Some m \<Rightarrow> m)"

text \<open>
  Modelled from the spec: the logger \<^verbatim>\<open>logger.log\<close> of \<^verbatim>\<open>./logger\<close>, which is not among
  the sources. "log(level, message) -> void, a no-op in production builds for non-critical
  levels." The call is recorded and has no other effect.
\<close>

definition log :: "string \<Rightarrow> string \<Rightarrow> world \<Rightarrow> world" where
  "log level message w = w\<lparr>events := events w @ [Logged level message]\<rparr>"

text \<open>
  Modelled from the spec: the command dispatcher \<^verbatim>\<open>IntercomAPI\<close> of \<^verbatim>\<open>./api\<close>, which is
  not among the sources. "If the global vendor entry point is not currently a callable
  function, this is a usage error (signals a VendorNotLoaded condition to the caller);
  otherwise invokes it positionally as (command, ...args) and returns whatever it returns."
  The failure is a thrown error here.
\<close>

definition IntercomAPI :: "'i env \<Rightarrow> string \<Rightarrow> arg list \<Rightarrow> action" where
  "IntercomAPI env command args w =
     (if Intercom w = Callable
      then (Inr (vendor env command args),
            w\<lparr>events := events w @ [Forwarded command args (isBooted w)]\<rparr>)
      else (Inl VendorNotLoaded, w))"

text \<open>
  Modelled from the spec: the vendor script injector \<^verbatim>\<open>initialize\<close> of \<^verbatim>\<open>./initialize\<close>,
  which is not among the sources. "Given an application identifier and an optional injection
  delay, asynchronously loads a third-party script that, once loaded, populates the global
  vendor entry point." The call itself only starts the load.
\<close>

definition initialize :: "string \<Rightarrow> int option \<Rightarrow> world \<Rightarrow> world" where
  "initialize app delay w = w\<lparr>events := events w @ [Initialized app delay]\<rparr>"

subsection \<open>Messages\<close>

fun join :: "string \<Rightarrow> string list \<Rightarrow> string" where
  "join sep [] = []"
| "join sep [x] = x"
| "join sep (x # y # ys) = x @ sep @ join sep (y # ys)"

definition invalid_props_message :: "string list \<Rightarrow> string" where
  "invalid_props_message ks =
     ''some invalid props were passed to IntercomProvider. '' @
     ''Please check following props: '' @ join '', '' ks @ ''.''"

definition boot_not_initialized_message :: string where
  "boot_not_initialized_message =
     ''Intercom instance is not initialized because `shouldInitialize` is set to `false` in `IntercomProvider, `'' @
     ''or because `externalIntercom` is set to `true` in `IntercomProvider`, '' @
     ''and the external Intercom instance has not been initialized yet. '' @
     ''Please call 'boot' after the external instance has been initialized or '' @
     ''set 'autoBoot' to true in IntercomProvider.''"

definition not_initialized_message :: string where
  "not_initialized_message =
     ''Intercom instance is not initialized because `shouldInitialize` is set to `false` in `IntercomProvider`''"

definition not_booted_message :: "string \<Rightarrow> string" where
  "not_booted_message functionName =
     [CHR 0x27] @ functionName @ [CHR 0x27] @ '' was called but Intercom has not booted yet. '' @
     ''Please call 'boot' before calling '' @ [CHR 0x27] @ functionName @ [CHR 0x27] @ '' or '' @
     ''set 'autoBoot' to true in the IntercomProvider.''"

subsection \<open>Booting\<close>

definition getIntercomSettings :: "props \<Rightarrow> settings option \<Rightarrow> world \<Rightarrow> settings" where
  "getIntercomSettings p metaData w =
     (let commonSettings =
            [''app_id'' \<mapsto> Str (appId p)]
            ++ (case apiBase p of
                  None \<Rightarrow> Map.empty
                | Some b \<Rightarrow> if b = [] then Map.empty else [''api_base'' \<mapsto> Str b])
            ++ spreadOpt metaData
      in if externalIntercom p then spreadOpt (intercomSettings w) ++ commonSettings
         else commonSettings)"

definition boot :: "'i env \<Rightarrow> props \<Rightarrow> 'i option \<Rightarrow> action" where
  "boot env p props w =
     (if Intercom w = Falsy \<and> \<not> shouldInitialize p
      then (Inr Undefined, log ''warn'' boot_not_initialized_message w)
      else if isBooted w then (Inr Undefined, w)
      else
        let intercomProps = map_option (mapIntercomPropsToRawIntercomProps env) props;
            settings = getIntercomSettings p intercomProps w;
            w1 = w\<lparr>intercomSettings := Some settings\<rparr>
        in (case IntercomAPI env ''boot'' [Settings settings] w1 of
              (Inl e, w2) \<Rightarrow> (Inl e, w2)
            | (Inr _, w2) \<Rightarrow>
                let w3 = w2\<lparr>isBooted := True\<rparr>
                in (Inr Undefined,
                    if onBoot p then w3\<lparr>events := events w3 @ [Called ''onBoot'']\<rparr> else w3)))"

definition initializeAndAttachListeners :: "'i env \<Rightarrow> props \<Rightarrow> action" where
  "initializeAndAttachListeners env p w =
     (let w1 = initialize (appId p) (initializeDelay p) w;
          w2 = (if onInitialize p then w1\<lparr>events := events w1 @ [Called ''onInitialize'']\<rparr>
                else w1)
      in andThen (if onHide p then IntercomAPI env ''onHide'' [Callback ''onHide'']
                  else ret Undefined)
           (\<lambda>_. andThen (if onShow p then IntercomAPI env ''onShow'' [Callback ''onShow'']
                         else ret Undefined)
             (\<lambda>_. andThen (if onUnreadCountChange p
                            then IntercomAPI env ''onUnreadCountChange''
                                   [Callback ''onUnreadCountChange'']
                            else ret Undefined)
               (\<lambda>_. if autoBoot p then boot env p None else ret Undefined))) w2)"

subsection \<open>Rendering and pinging\<close>

text \<open>The second argument of the \<^verbatim>\<open>useInterval\<close> call: \<^verbatim>\<open>shouldPing ? null : 1000\<close>.\<close>

definition delayArg :: "props \<Rightarrow> world \<Rightarrow> int option" where
  "delayArg p w = (let shouldPing = ping w \<and> externalIntercom p
                   in if shouldPing then None else Some 1000)"

text \<open>
  One render of the component body and the effects of its \<^verbatim>\<open>useInterval\<close>. The callback
  handed to the hook closes over the props of this render, which stand for it.
\<close>

definition render :: "'i env \<Rightarrow> props \<Rightarrow> action" where
  "render env p w =
     (let w1 = (if rest p \<noteq> [] \<and> DEV env
                then log ''error'' (invalid_props_message (rest p)) w else w)
      in andThen
           (if \<not> isSSR env \<and> shouldInitialize p \<and> \<not> externalIntercom p
               \<and> Intercom w1 = Falsy
            then initializeAndAttachListeners env p else ret Undefined)
           (\<lambda>_ w2. (Inr Undefined,
                     w2\<lparr>interval := useInterval p (delayArg p w2) (interval w2)\<rparr>)) w1)"

definition mount :: "'i env \<Rightarrow> props \<Rightarrow> int \<Rightarrow> handle \<Rightarrow> settings option
    \<Rightarrow> (error + jsval) \<times> world" where
  "mount env p now h s =
     render env p
       \<lparr>Intercom = h, intercomSettings = s, isBooted = False, ping = True, start = now,
        clock = now, interval = initial_hook, events = []\<rparr>"

definition setPing :: "'i env \<Rightarrow> props \<Rightarrow> bool \<Rightarrow> action" where
  "setPing env p v w = (if ping w = v then (Inr Undefined, w) else render env p (w\<lparr>ping := v\<rparr>))"

definition pingCallback :: "'i env \<Rightarrow> props \<Rightarrow> action" where
  "pingCallback env p w =
     (if \<not> isSSR env \<and> shouldInitialize p \<and> externalIntercom p then
        if Intercom w = Callable
        then andThen (initializeAndAttachListeners env p) (\<lambda>_. setPing env p False) w
        else if externalIntercomFallback p
                \<and> clock w - start w > externalIntercomFallbackDelay p
        then andThen (initializeAndAttachListeners env p) (\<lambda>_. setPing env p False) w
        else (Inr Undefined, w)
      else (Inr Undefined, w))"

text \<open>
  An error thrown out of a call, a render or a timer callback is recorded, and the world goes
  on from where it was thrown.
\<close>

definition settle :: "(error + jsval) \<times> world \<Rightarrow> world" where
  "settle r = (case r of (Inl e, w) \<Rightarrow> w\<lparr>events := events w @ [Thrown e]\<rparr> | (Inr _, w) \<Rightarrow> w)"

text \<open>The timer fires: \<^verbatim>\<open>tick\<close> runs the saved callback.\<close>

definition fire :: "'i env \<Rightarrow> world \<Rightarrow> world" where
  "fire env w =
     (case tick (interval w) of
        None \<Rightarrow> w
      | Some p \<Rightarrow> settle (pingCallback env p w))"

definition millisecond :: "'i env \<Rightarrow> world \<Rightarrow> world" where
  "millisecond env w =
     (let w1 = w\<lparr>clock := clock w + 1, interval := timer_step (interval w)\<rparr>
      in if timer_due (interval w) then fire env w1 else w1)"

definition elapse :: "'i env \<Rightarrow> nat \<Rightarrow> world \<Rightarrow> world" where
  "elapse env n w = (millisecond env ^^ n) w"

definition initializations :: "world \<Rightarrow> nat" where
  "initializations w = length (filter (\<lambda>ev. case ev of Initialized _ _ \<Rightarrow> True | _ \<Rightarrow> False) (events w))"

subsection \<open>Shutting down\<close>

definition shutdown :: "'i env \<Rightarrow> action" where
  "shutdown env w =
     (if \<not> isBooted w then (Inr Undefined, w)
      else andThen (IntercomAPI env ''shutdown'' [])
             (\<lambda>_ w1. (Inr Undefined, w1\<lparr>isBooted := False\<rparr>)) w)"

definition hardShutdown :: "'i env \<Rightarrow> action" where
  "hardShutdown env w =
     (if \<not> isBooted w then (Inr Undefined, w)
      else andThen (IntercomAPI env ''shutdown'' [])
             (\<lambda>_ w1. (Inr Undefined,
                       w1\<lparr>Intercom := Falsy, intercomSettings := None, isBooted := False\<rparr>)) w)"

subsection \<open>The readiness guard and the guarded commands\<close>

definition ensureIntercom :: "props \<Rightarrow> string option \<Rightarrow> action \<Rightarrow> action" where
  "ensureIntercom p functionName callback w =
     (let name = (case functionName of None \<Rightarrow> ''A function'' | Some n \<Rightarrow> n)
      in if Intercom w = Falsy \<and> \<not> shouldInitialize p
         then (Inr Undefined, log ''warn'' not_initialized_message w)
         else if \<not> isBooted w
         then (Inr Undefined, log ''warn'' (not_booted_message name) w)
         else callback w)"

definition refresh :: "'i env \<Rightarrow> props \<Rightarrow> action" where
  "refresh env p =
     andThen
       (ensureIntercom p (Some ''update'')
          (\<lambda>w. andThen
                  (IntercomAPI env ''update''
                     [Settings [''last_requested_at'' \<mapsto> Num (clock w)]])
                  (\<lambda>_. ret Undefined) w))
       (\<lambda>_. ret Undefined)"

definition update :: "'i env \<Rightarrow> props \<Rightarrow> 'i option \<Rightarrow> action" where
  "update env p props =
     andThen
       (ensureIntercom p (Some ''update'')
          (\<lambda>w. case props of
                  None \<Rightarrow> andThen (refresh env p) (\<lambda>_. ret Undefined) w
                | Some x \<Rightarrow>
                    let rawProps = mapIntercomPropsToRawIntercomProps env x;
                        w1 = w\<lparr>intercomSettings :=
                                 Some (spreadOpt (intercomSettings w) ++ rawProps)\<rparr>
                    in andThen (IntercomAPI env ''update'' [Settings rawProps])
                         (\<lambda>_. ret Undefined) w1))
       (\<lambda>_. ret Undefined)"

definition hide :: "'i env \<Rightarrow> props \<Rightarrow> action" where
  "hide env p =
     andThen
       (ensureIntercom p (Some ''hide'')
          (andThen (IntercomAPI env ''hide'' []) (\<lambda>_. ret Undefined)))
       (\<lambda>_. ret Undefined)"

text \<open>\<^verbatim>\<open>show\<close> of the source; the name is a keyword here.\<close>

definition show_cmd :: "'i env \<Rightarrow> props \<Rightarrow> action" where
  "show_cmd env p =
     andThen (ensureIntercom p (Some ''show'') (IntercomAPI env ''show'' []))
       (\<lambda>_. ret Undefined)"

definition showMessages :: "'i env \<Rightarrow> props \<Rightarrow> action" where
  "showMessages env p =
     andThen
       (ensureIntercom p (Some ''showMessages'')
          (andThen (IntercomAPI env ''showMessages'' []) (\<lambda>_. ret Undefined)))
       (\<lambda>_. ret Undefined)"

definition showNewMessages :: "'i env \<Rightarrow> props \<Rightarrow> string option \<Rightarrow> action" where
  "showNewMessages env p message =
     andThen
       (ensureIntercom p (Some ''showNewMessage'')
          (andThen
             (case message of
                None \<Rightarrow> IntercomAPI env ''showNewMessage'' []
              | Some m \<Rightarrow>
                  if m = [] then IntercomAPI env ''showNewMessage'' []
                  else IntercomAPI env ''showNewMessage'' [Value (Str m)])
             (\<lambda>_. ret Undefined)))
       (\<lambda>_. ret Undefined)"

definition getVisitorId :: "'i env \<Rightarrow> props \<Rightarrow> action" where
  "getVisitorId env p = ensureIntercom p (Some ''getVisitorId'') (IntercomAPI env ''getVisitorId'' [])"

definition startTour :: "'i env \<Rightarrow> props \<Rightarrow> int \<Rightarrow> action" where
  "startTour env p tourId =
     andThen
       (ensureIntercom p (Some ''startTour'')
          (andThen (IntercomAPI env ''startTour'' [Value (Num tourId)]) (\<lambda>_. ret Undefined)))
       (\<lambda>_. ret Undefined)"

definition trackEvent :: "'i env \<Rightarrow> props \<Rightarrow> string \<Rightarrow> settings option \<Rightarrow> action" where
  "trackEvent env p event metaData =
     andThen
       (ensureIntercom p (Some ''trackEvent'')
          (andThen
             (case metaData of
                Some m \<Rightarrow> IntercomAPI env ''trackEvent'' [Value (Str event), Settings m]
              | None \<Rightarrow> IntercomAPI env ''trackEvent'' [Value (Str event)])
             (\<lambda>_. ret Undefined)))
       (\<lambda>_. ret Undefined)"

subsection \<open>Sequences of operations\<close>

text \<open>
  The functions the provider hands to its consumers, and what can happen to a mounted
  provider: a consumer calls one of them, time passes, the parent renders it again, or code
  outside the provider (the vendor script, an external copy of the widget) assigns the two
  globals.
\<close>

datatype 'i call =
    Boot "'i option"
  | Shutdown
  | HardShutdown
  | Update "'i option"
  | Hide
  | Show
  | ShowMessages
  | ShowNewMessages "string option"
  | GetVisitorId
  | StartTour int
  | TrackEvent string "settings option"

fun perform :: "'i env \<Rightarrow> props \<Rightarrow> 'i call \<Rightarrow> action" where
  "perform env p (Boot props) = boot env p props"
| "perform env p Shutdown = shutdown env"
| "perform env p HardShutdown = hardShutdown env"
| "perform env p (Update props) = update env p props"
| "perform env p Hide = hide env p"
| "perform env p Show = show_cmd env p"
| "perform env p ShowMessages = showMessages env p"
| "perform env p (ShowNewMessages message) = showNewMessages env p message"
| "perform env p GetVisitorId = getVisitorId env p"
| "perform env p (StartTour tourId) = startTour env p tourId"
| "perform env p (TrackEvent event metaData) = trackEvent env p event metaData"

text \<open>The name a guarded command passes to \<^verbatim>\<open>ensureIntercom\<close>.\<close>

fun guard_name :: "'i call \<Rightarrow> string option" where
  "guard_name (Update _) = Some ''update''"
| "guard_name Hide = Some ''hide''"
| "guard_name Show = Some ''show''"
| "guard_name ShowMessages = Some ''showMessages''"
| "guard_name (ShowNewMessages _) = Some ''showNewMessage''"
| "guard_name GetVisitorId = Some ''getVisitorId''"
| "guard_name (StartTour _) = Some ''startTour''"
| "guard_name (TrackEvent _ _) = Some ''trackEvent''"
| "guard_name _ = None"

datatype 'i step =
    Call "'i call"
  | Elapse nat
  | Rerender
  | External handle "settings option"

fun exec :: "'i env \<Rightarrow> props \<Rightarrow> 'i step \<Rightarrow> world \<Rightarrow> world" where
  "exec env p (Call c) w = settle (perform env p c w)"
| "exec env p (Elapse n) w = elapse env n w"
| "exec env p Rerender w = settle (render env p w)"
| "exec env p (External h s) w = w\<lparr>Intercom := h, intercomSettings := s\<rparr>"

definition run :: "'i env \<Rightarrow> props \<Rightarrow> 'i step list \<Rightarrow> world \<Rightarrow> world" where
  "run env p steps w = fold (exec env p) steps w"

text \<open>Repeated calls of \<^verbatim>\<open>boot\<close>, each with its own argument, and of \<^verbatim>\<open>shutdown\<close>.\<close>

definition boots :: "'i env \<Rightarrow> props \<Rightarrow> 'i option list \<Rightarrow> world \<Rightarrow> world" where
  "boots env p argss w = fold (\<lambda>props w'. snd (boot env p props w')) argss w"

definition shutdowns :: "'i env \<Rightarrow> nat \<Rightarrow> world \<Rightarrow> world" where
  "shutdowns env n w = ((\<lambda>w'. snd (shutdown env w')) ^^ n) w"

definition forwarded :: "string \<Rightarrow> world \<Rightarrow> nat" where
  "forwarded command w =
     length (filter (\<lambda>ev. case ev of Forwarded c _ _ \<Rightarrow> c = command | _ \<Rightarrow> False) (events w))"

text \<open>
  A forwarded command is in order when it was forwarded after booting, or is the boot command
  itself or one of the listener registrations of the initialization.
\<close>

definition in_order :: "event \<Rightarrow> bool" where
  "in_order ev =
     (case ev of
        Forwarded c _ b \<Rightarrow>
          b \<or> c \<in> {''boot'', ''onHide'', ''onShow'', ''onUnreadCountChange''}
      | _ \<Rightarrow> True)"

definition orderly :: "world \<Rightarrow> bool" where
  "orderly w = list_all in_order (events w)"



subsection \<open>A concrete provider\<close>

definition demo_env :: "settings env" where
  "demo_env =
     \<lparr>isSSR = False, DEV = True,
      vendor = (\<lambda>c as. if c = ''getVisitorId'' then Str ''visitor-1'' else Undefined),
      mapIntercomPropsToRawIntercomProps = (\<lambda>x. x)\<rparr>"

definition demo_props :: props where
  "demo_props =
     \<lparr>appId = ''app'', autoBoot = False, onHide = False, onShow = False,
      onUnreadCountChange = False, onInitialize = False, onBoot = True,
      shouldInitialize = True, apiBase = None, initializeDelay = None,
      externalIntercom = False, externalIntercomFallback = True,
      externalIntercomFallbackDelay = 30000, rest = []\<rparr>"

text \<open>The same provider waiting for an external copy of the widget.\<close>

definition waiting_props :: props where
  "waiting_props = demo_props\<lparr>externalIntercom := True\<rparr>"

definition demo_world :: world where
  "demo_world =
     \<lparr>Intercom = Callable, intercomSettings = Some [''foo'' \<mapsto> Num 1], isBooted = False,
      ping = True, start = 0, clock = 0, interval = initial_hook, events = []\<rparr>"

definition booted_world :: world where
  "booted_world = snd (boot demo_env demo_props None demo_world)"

section \<open>The dispatcher and the guards\<close>

lemma IntercomAPI_callable:
  "Intercom w = Callable \<Longrightarrow>
     IntercomAPI env c as w =
       (Inr (vendor env c as), w\<lparr>events := events w @ [Forwarded c as (isBooted w)]\<rparr>)"
  by (simp add: IntercomAPI_def)

lemma IntercomAPI_not_callable:
  "Intercom w \<noteq> Callable \<Longrightarrow> IntercomAPI env c as w = (Inl VendorNotLoaded, w)"
  by (simp add: IntercomAPI_def)

lemma not_booted_message_names: "sublist name (not_booted_message name)"
  unfolding not_booted_message_def by (rule sublist_appendI [of _ "[CHR 0x27]"])

lemma guarded_not_initialized:
  "guard_name c = Some name \<Longrightarrow> Intercom w = Falsy \<and> \<not> shouldInitialize p \<Longrightarrow>
     perform env p c w =
       (Inr Undefined, w\<lparr>events := events w @ [Logged ''warn'' not_initialized_message]\<rparr>)"
  by (cases c)
     (simp_all add: update_def hide_def show_cmd_def showMessages_def showNewMessages_def
        getVisitorId_def startTour_def trackEvent_def ensureIntercom_def andThen_def ret_def
        log_def)

lemma guarded_not_booted:
  "guard_name c = Some name \<Longrightarrow> \<not> (Intercom w = Falsy \<and> \<not> shouldInitialize p) \<Longrightarrow>
   \<not> isBooted w \<Longrightarrow>
     perform env p c w =
       (Inr Undefined, w\<lparr>events := events w @ [Logged ''warn'' (not_booted_message name)]\<rparr>)"
  by (cases c)
     (auto simp add: update_def hide_def show_cmd_def showMessages_def showNewMessages_def
        getVisitorId_def startTour_def trackEvent_def ensureIntercom_def andThen_def ret_def
        log_def)

text \<open>
  C5. For each of the eight guarded commands, with the name it hands to the guard: when
  \<^verbatim>\<open>window.Intercom\<close> is absent and \<^verbatim>\<open>shouldInitialize\<close> is false, the guard logs a
  warning and returns undefined, and so does the command, with no other change; otherwise,
  when not booted, the guard logs a warning that contains the name and returns undefined, and
  so does the command, with no other change; otherwise the guard runs the callback and returns
  what the callback returns.
\<close>

theorem ensureIntercom_guard:
  "guard_name c = Some name \<Longrightarrow>
   (Intercom w = Falsy \<and> \<not> shouldInitialize p \<longrightarrow>
      ensureIntercom p (Some name) callback w =
        (Inr Undefined, w\<lparr>events := events w @ [Logged ''warn'' not_initialized_message]\<rparr>)
      \<and> perform env p c w = ensureIntercom p (Some name) callback w)
   \<and> (\<not> (Intercom w = Falsy \<and> \<not> shouldInitialize p) \<and> \<not> isBooted w \<longrightarrow>
      ensureIntercom p (Some name) callback w =
        (Inr Undefined, w\<lparr>events := events w @ [Logged ''warn'' (not_booted_message name)]\<rparr>)
      \<and> perform env p c w = ensureIntercom p (Some name) callback w
      \<and> sublist name (not_booted_message name))
   \<and> (\<not> (Intercom w = Falsy \<and> \<not> shouldInitialize p) \<and> isBooted w \<longrightarrow>
      ensureIntercom p (Some name) callback w = callback w)"
  using guarded_not_initialized [of c name w p env] guarded_not_booted [of c name w p env]
    not_booted_message_names [of name]
  by (auto simp: ensureIntercom_def log_def)

theorem ensureIntercom_guard_witness:
  "guard_name (GetVisitorId :: settings call) = Some ''getVisitorId''
   \<and> perform demo_env (demo_props\<lparr>shouldInitialize := False\<rparr>) GetVisitorId
        (demo_world\<lparr>Intercom := Falsy\<rparr>)
       = (Inr Undefined,
          demo_world\<lparr>Intercom := Falsy, events := [Logged ''warn'' not_initialized_message]\<rparr>)
   \<and> perform demo_env demo_props GetVisitorId demo_world =
       (Inr Undefined,
        demo_world\<lparr>events := [Logged ''warn'' (not_booted_message ''getVisitorId'')]\<rparr>)
   \<and> ensureIntercom demo_props (Some ''getVisitorId'') (IntercomAPI demo_env ''getVisitorId'' [])
        (demo_world\<lparr>isBooted := True\<rparr>)
       = (Inr (Str ''visitor-1''),
          demo_world\<lparr>isBooted := True, events := [Forwarded ''getVisitorId'' [] True]\<rparr>)"
proof -
  have g: "guard_name (GetVisitorId :: settings call) = Some ''getVisitorId''" by simp
  note t = ensureIntercom_guard [OF g, where env = demo_env
      and callback = "IntercomAPI demo_env ''getVisitorId'' []"]
  from t [of "demo_world\<lparr>Intercom := Falsy\<rparr>" "demo_props\<lparr>shouldInitialize := False\<rparr>"]
    t [of demo_world demo_props] t [of "demo_world\<lparr>isBooted := True\<rparr>" demo_props]
  show ?thesis
    by (simp add: demo_world_def demo_props_def demo_env_def IntercomAPI_def)
qed

section \<open>Booting and shutting down\<close>

text \<open>
  C4, as amended. For a call \<^verbatim>\<open>boot(props)\<close> that passes the guard while not booted, the
  effective settings are this call's computed settings (\<^verbatim>\<open>app_id\<close>, then \<^verbatim>\<open>api_base\<close> when
  \<^verbatim>\<open>apiBase\<close> is a non-empty string, then the mapped props, later keys winning), merged over
  \<^verbatim>\<open>window.intercomSettings\<close> only when \<^verbatim>\<open>externalIntercom\<close> is true. They are stored as
  the new \<^verbatim>\<open>window.intercomSettings\<close>; and when \<^verbatim>\<open>window.Intercom\<close> is callable, "boot" is
  forwarded with exactly those settings, booted becomes true and \<^verbatim>\<open>onBoot\<close>, when
  supplied, is called.
\<close>

theorem boot_effect:
  "\<not> isBooted w \<Longrightarrow> Intercom w \<noteq> Falsy \<or> shouldInitialize p \<Longrightarrow>
     (let computed =
            [''app_id'' \<mapsto> Str (appId p)]
            ++ (case apiBase p of
                  None \<Rightarrow> Map.empty
                | Some b \<Rightarrow> if b = [] then Map.empty else [''api_base'' \<mapsto> Str b])
            ++ (case props of
                  None \<Rightarrow> Map.empty
                | Some x \<Rightarrow> mapIntercomPropsToRawIntercomProps env x);
          effective =
            (if externalIntercom p
             then (case intercomSettings w of None \<Rightarrow> Map.empty | Some s \<Rightarrow> s) ++ computed
             else computed)
      in intercomSettings (snd (boot env p props w)) = Some effective
         \<and> (Intercom w = Callable \<longrightarrow>
              boot env p props w =
                (Inr Undefined,
                 w\<lparr>intercomSettings := Some effective, isBooted := True,
                   events := events w @ Forwarded ''boot'' [Settings effective] False
                               # (if onBoot p then [Called ''onBoot''] else [])\<rparr>)))"
  by (cases props; cases "Intercom w = Callable")
     (auto simp: boot_def getIntercomSettings_def spreadOpt_def Let_def
        IntercomAPI_callable IntercomAPI_not_callable split: option.splits)

theorem boot_effect_witness:
  "\<not> isBooted demo_world \<and> Intercom demo_world = Callable \<and> shouldInitialize demo_props
   \<and> boot demo_env demo_props (Some [''name'' \<mapsto> Str ''Jane'']) demo_world =
       (Inr Undefined,
        demo_world\<lparr>intercomSettings := Some [''app_id'' \<mapsto> Str ''app'', ''name'' \<mapsto> Str ''Jane''],
          isBooted := True,
          events := [Forwarded ''boot''
                       [Settings [''app_id'' \<mapsto> Str ''app'', ''name'' \<mapsto> Str ''Jane'']] False,
                     Called ''onBoot'']\<rparr>)"
proof -
  have a: "\<not> isBooted demo_world" by (simp add: demo_world_def)
  have b: "Intercom demo_world \<noteq> Falsy \<or> shouldInitialize demo_props"
    by (simp add: demo_world_def)
  have c: "Intercom demo_world = Callable" by (simp add: demo_world_def)
  have d: "shouldInitialize demo_props" by (simp add: demo_props_def)
  from boot_effect [OF a b, where props = "Some [''name'' \<mapsto> Str ''Jane'']" and env = demo_env]
    c a d
  show ?thesis
    by (simp add: Let_def demo_props_def demo_env_def demo_world_def)
qed

text \<open>
  The claim C4 as stated fails: with \<^verbatim>\<open>externalIntercom\<close> false, a global settings blob
  \<^verbatim>\<open>{foo: 1}\<close> set from outside is not merged in; the stored settings are \<^verbatim>\<open>{app_id}\<close>.
\<close>

theorem boot_drops_global_settings:
  "\<not> isBooted demo_world \<and> Intercom demo_world \<noteq> Falsy
   \<and> intercomSettings demo_world = Some [''foo'' \<mapsto> Num 1]
   \<and> intercomSettings (snd (boot demo_env demo_props None demo_world))
       = Some [''app_id'' \<mapsto> Str ''app'']
   \<and> [''app_id'' \<mapsto> Str ''app''] \<noteq> [''foo'' \<mapsto> Num 1] ++ [''app_id'' \<mapsto> Str ''app'']"
proof -
  have "[''app_id'' \<mapsto> Str ''app''] ''foo''
        \<noteq> ([''foo'' \<mapsto> Num 1] ++ [''app_id'' \<mapsto> Str ''app'']) ''foo''"
    by simp
  then have "[''app_id'' \<mapsto> Str ''app''] \<noteq> [''foo'' \<mapsto> Num 1] ++ [''app_id'' \<mapsto> Str ''app'']"
    by metis
  then show ?thesis
    by (simp add: boot_def getIntercomSettings_def spreadOpt_def Let_def IntercomAPI_def
        demo_props_def demo_env_def demo_world_def)
qed

lemma boot_booted:
  "isBooted w \<Longrightarrow> Intercom w \<noteq> Falsy \<or> shouldInitialize p \<Longrightarrow>
     boot env p props w = (Inr Undefined, w)"
  by (auto simp: boot_def)

lemma boots_booted:
  "isBooted w \<Longrightarrow> Intercom w = Callable \<Longrightarrow> boots env p xs w = w"
  unfolding boots_def by (induction xs) (simp_all add: boot_booted)

lemma boot_callable:
  "\<not> isBooted w \<Longrightarrow> Intercom w = Callable \<Longrightarrow>
     isBooted (snd (boot env p x w)) \<and> Intercom (snd (boot env p x w)) = Callable
     \<and> forwarded ''boot'' (snd (boot env p x w)) = Suc (forwarded ''boot'' w)"
  by (simp add: boot_def Let_def IntercomAPI_def forwarded_def)

lemma boot_other:
  "isBooted w \<or> Intercom w \<noteq> Callable \<Longrightarrow>
     forwarded ''boot'' (snd (boot env p x w)) = forwarded ''boot'' w
     \<and> isBooted (snd (boot env p x w)) = isBooted w
     \<and> Intercom (snd (boot env p x w)) = Intercom w"
  by (auto simp: boot_def Let_def IntercomAPI_def forwarded_def log_def)

lemma boots_at_most_once:
  "forwarded ''boot'' (boots env p xs w) \<le> Suc (forwarded ''boot'' w)"
proof (induction xs arbitrary: w)
  case Nil
  then show ?case by (simp add: boots_def)
next
  case (Cons x xs)
  have unfold: "boots env p (x # xs) w = boots env p xs (snd (boot env p x w))"
    by (simp add: boots_def)
  show ?case
  proof (cases "\<not> isBooted w \<and> Intercom w = Callable")
    case True
    then have "boots env p xs (snd (boot env p x w)) = snd (boot env p x w)"
      using boot_callable [of w env p x] by (simp add: boots_booted)
    with True show ?thesis using boot_callable [of w env p x] by (simp add: unfold)
  next
    case False
    then have "forwarded ''boot'' (snd (boot env p x w)) = forwarded ''boot'' w"
      using boot_other [of w env p x] by blast
    with Cons.IH [of "snd (boot env p x w)"] show ?thesis by (simp add: unfold)
  qed
qed

text \<open>
  C6. In a sequence of \<^verbatim>\<open>boot\<close> calls with nothing in between: from a state that is not
  booted and has a callable \<^verbatim>\<open>window.Intercom\<close>, the first call forwards "boot" once and
  sets booted, and the state after the whole sequence is the state after the first call; a
  call made while booted returns undefined and changes nothing; and whatever the starting
  state, the sequence forwards "boot" at most once.
\<close>

theorem boot_forwarded_once:
  "(\<not> isBooted w \<and> Intercom w = Callable \<longrightarrow>
      boots env p (x # xs) w = snd (boot env p x w)
      \<and> isBooted (boots env p (x # xs) w)
      \<and> forwarded ''boot'' (boots env p (x # xs) w) = Suc (forwarded ''boot'' w))
   \<and> (isBooted w \<and> (Intercom w \<noteq> Falsy \<or> shouldInitialize p) \<longrightarrow>
        boot env p x w = (Inr Undefined, w))
   \<and> forwarded ''boot'' (boots env p ys w) \<le> Suc (forwarded ''boot'' w)"
proof -
  have first: "boots env p (x # xs) w = snd (boot env p x w)"
    if "\<not> isBooted w" "Intercom w = Callable"
  proof -
    have "boots env p (x # xs) w = boots env p xs (snd (boot env p x w))"
      by (simp add: boots_def)
    then show ?thesis using boot_callable [OF that, of env p x] by (simp add: boots_booted)
  qed
  show ?thesis
    using first boot_callable [of w env p x] boot_booted [of w p env x]
      boots_at_most_once [of env p ys w]
    by auto
qed

theorem boot_forwarded_once_witness:
  "\<not> isBooted demo_world \<and> Intercom demo_world = Callable
   \<and> boots demo_env demo_props [None, Some [''name'' \<mapsto> Str ''Jane''], None] demo_world
       = snd (boot demo_env demo_props None demo_world)
   \<and> forwarded ''boot''
       (boots demo_env demo_props [None, Some [''name'' \<mapsto> Str ''Jane''], None] demo_world) = 1
   \<and> isBooted (snd (boot demo_env demo_props None demo_world))
   \<and> boot demo_env demo_props (Some [''name'' \<mapsto> Str ''Jane''])
        (snd (boot demo_env demo_props None demo_world))
       = (Inr Undefined, snd (boot demo_env demo_props None demo_world))"
proof -
  let ?w1 = "snd (boot demo_env demo_props None demo_world)"
  have a: "\<not> isBooted demo_world \<and> Intercom demo_world = Callable"
    by (simp add: demo_world_def)
  have z: "forwarded ''boot'' demo_world = 0" by (simp add: forwarded_def demo_world_def)
  have b: "isBooted ?w1 \<and> (Intercom ?w1 \<noteq> Falsy \<or> shouldInitialize demo_props)"
    by (simp add: boot_def Let_def IntercomAPI_def demo_world_def demo_props_def)
  note first = boot_forwarded_once [where w = demo_world and env = demo_env and p = demo_props
      and x = None and xs = "[Some [''name'' \<mapsto> Str ''Jane''], None]" and ys = "[]"]
  note later = boot_forwarded_once [where w = ?w1 and env = demo_env and p = demo_props
      and x = "Some [''name'' \<mapsto> Str ''Jane'']" and xs = "[]" and ys = "[]"]
  from first a z
  have "boots demo_env demo_props [None, Some [''name'' \<mapsto> Str ''Jane''], None] demo_world = ?w1"
    and "forwarded ''boot''
       (boots demo_env demo_props [None, Some [''name'' \<mapsto> Str ''Jane''], None] demo_world) = 1"
    by (metis, metis One_nat_def)
  moreover from later b
  have "boot demo_env demo_props (Some [''name'' \<mapsto> Str ''Jane'']) ?w1 = (Inr Undefined, ?w1)"
    by blast
  ultimately show ?thesis using a b by blast
qed

lemma shutdown_not_booted: "\<not> isBooted w \<Longrightarrow> shutdown env w = (Inr Undefined, w)"
  by (simp add: shutdown_def)

text \<open>
  C7. While not booted, \<^verbatim>\<open>shutdown\<close> returns undefined and changes nothing, and so does any
  number of \<^verbatim>\<open>shutdown\<close> calls in a row: no "shutdown" command is forwarded.
\<close>

theorem shutdown_idle_identity:
  "\<not> isBooted w \<Longrightarrow>
     shutdown env w = (Inr Undefined, w) \<and> shutdowns env n w = w
     \<and> forwarded ''shutdown'' (shutdowns env n w) = forwarded ''shutdown'' w"
proof -
  assume nb: "\<not> isBooted w"
  have "shutdowns env n w = w"
    unfolding shutdowns_def by (induction n) (simp_all add: shutdown_not_booted nb)
  then show ?thesis by (simp add: shutdown_not_booted nb)
qed

theorem shutdown_idle_identity_witness:
  "\<not> isBooted demo_world \<and> shutdown demo_env demo_world = (Inr Undefined, demo_world)
   \<and> shutdowns demo_env 3 demo_world = demo_world
   \<and> forwarded ''shutdown'' (shutdowns demo_env 3 demo_world) = 0"
proof -
  have nb: "\<not> isBooted demo_world" by (simp add: demo_world_def)
  have "forwarded ''shutdown'' demo_world = 0" by (simp add: forwarded_def demo_world_def)
  with nb shutdown_idle_identity [OF nb, of demo_env 3] show ?thesis by simp
qed

text \<open>
  C10. For a call \<^verbatim>\<open>update(props)\<close> with props, made while booted with the guard passing:
  \<^verbatim>\<open>window.intercomSettings\<close> becomes its previous value merged with the mapped props, the
  mapped props winning; and with \<^verbatim>\<open>window.Intercom\<close> callable, "update" is forwarded with
  the mapped props alone as its argument, and nothing else changes.
\<close>

theorem update_effect:
  "isBooted w \<Longrightarrow> Intercom w \<noteq> Falsy \<or> shouldInitialize p \<Longrightarrow>
     (let rawProps = mapIntercomPropsToRawIntercomProps env x;
          merged = (case intercomSettings w of None \<Rightarrow> Map.empty | Some s \<Rightarrow> s) ++ rawProps
      in intercomSettings (snd (update env p (Some x) w)) = Some merged
         \<and> (Intercom w = Callable \<longrightarrow>
              update env p (Some x) w =
                (Inr Undefined,
                 w\<lparr>intercomSettings := Some merged,
                   events := events w @ [Forwarded ''update'' [Settings rawProps] True]\<rparr>)))"
  by (cases "Intercom w = Callable")
     (auto simp: update_def ensureIntercom_def andThen_def ret_def spreadOpt_def Let_def
        IntercomAPI_callable IntercomAPI_not_callable split: option.splits)

theorem update_effect_witness:
  "isBooted (demo_world\<lparr>isBooted := True\<rparr>)
   \<and> Intercom (demo_world\<lparr>isBooted := True\<rparr>) = Callable
   \<and> update demo_env demo_props (Some [''name'' \<mapsto> Str ''Jane'']) (demo_world\<lparr>isBooted := True\<rparr>)
       = (Inr Undefined,
          demo_world\<lparr>isBooted := True,
            intercomSettings := Some [''foo'' \<mapsto> Num 1, ''name'' \<mapsto> Str ''Jane''],
            events := [Forwarded ''update'' [Settings [''name'' \<mapsto> Str ''Jane'']] True]\<rparr>)"
proof -
  let ?w = "demo_world\<lparr>isBooted := True\<rparr>"
  have a: "isBooted ?w" by simp
  have b: "Intercom ?w \<noteq> Falsy \<or> shouldInitialize demo_props" by (simp add: demo_world_def)
  have c: "Intercom ?w = Callable" by (simp add: demo_world_def)
  from update_effect [OF a b, where x = "[''name'' \<mapsto> Str ''Jane'']" and env = demo_env] a c
  show ?thesis
    by (simp add: Let_def demo_props_def demo_env_def demo_world_def)
qed

text \<open>
  C8, as amended. A call of \<^verbatim>\<open>hardShutdown\<close> while not booted changes nothing. A call
  while booted, with \<^verbatim>\<open>window.Intercom\<close> callable, forwards "shutdown", clears
  \<^verbatim>\<open>window.Intercom\<close> and \<^verbatim>\<open>window.intercomSettings\<close> and sets booted to false; and once
  \<^verbatim>\<open>window.Intercom\<close> is callable again, the next \<^verbatim>\<open>boot\<close> is a full boot: it stores this
  call's computed settings, forwards "boot" with them and sets booted.
\<close>

theorem hardShutdown_effect:
  "(\<not> isBooted w \<longrightarrow> hardShutdown env w = (Inr Undefined, w))
   \<and> (isBooted w \<and> Intercom w = Callable \<longrightarrow>
        (let w' = w\<lparr>Intercom := Falsy, intercomSettings := None, isBooted := False,
                    events := events w @ [Forwarded ''shutdown'' [] True]\<rparr>;
             computed =
               [''app_id'' \<mapsto> Str (appId p)]
               ++ (case apiBase p of
                     None \<Rightarrow> Map.empty
                   | Some b \<Rightarrow> if b = [] then Map.empty else [''api_base'' \<mapsto> Str b])
               ++ (case props of
                     None \<Rightarrow> Map.empty
                   | Some x \<Rightarrow> mapIntercomPropsToRawIntercomProps env x)
         in hardShutdown env w = (Inr Undefined, w')
            \<and> boot env p props (w'\<lparr>Intercom := Callable\<rparr>) =
                 (Inr Undefined,
                  w'\<lparr>Intercom := Callable, intercomSettings := Some computed,
                     isBooted := True,
                     events := events w' @ Forwarded ''boot'' [Settings computed] False
                                 # (if onBoot p then [Called ''onBoot''] else [])\<rparr>)))"
  by (cases props)
     (auto simp: hardShutdown_def andThen_def IntercomAPI_def boot_def getIntercomSettings_def
        spreadOpt_def Let_def)

theorem hardShutdown_effect_witness:
  "isBooted booted_world \<and> Intercom booted_world = Callable
   \<and> hardShutdown demo_env booted_world =
       (Inr Undefined,
        booted_world\<lparr>Intercom := Falsy, intercomSettings := None, isBooted := False,
          events := [Forwarded ''boot'' [Settings [''app_id'' \<mapsto> Str ''app'']] False,
                     Called ''onBoot'', Forwarded ''shutdown'' [] True]\<rparr>)
   \<and> hardShutdown demo_env demo_world = (Inr Undefined, demo_world)
   \<and> isBooted (snd (boot demo_env demo_props (Some [''name'' \<mapsto> Str ''Jane''])
        ((snd (hardShutdown demo_env booted_world))\<lparr>Intercom := Callable\<rparr>)))"
proof -
  have b: "booted_world =
      demo_world\<lparr>intercomSettings := Some [''app_id'' \<mapsto> Str ''app''], isBooted := True,
        events := [Forwarded ''boot'' [Settings [''app_id'' \<mapsto> Str ''app'']] False,
                   Called ''onBoot'']\<rparr>"
    by (simp add: booted_world_def boot_def getIntercomSettings_def spreadOpt_def Let_def
        IntercomAPI_def demo_world_def demo_props_def demo_env_def)
  have a: "isBooted booted_world \<and> Intercom booted_world = Callable"
    by (simp add: b demo_world_def)
  have n: "\<not> isBooted demo_world" by (simp add: demo_world_def)
  note t = hardShutdown_effect [where env = demo_env and p = demo_props
      and props = "Some [''name'' \<mapsto> Str ''Jane'']"]
  from t [of booted_world] a
  have 1: "hardShutdown demo_env booted_world =
       (Inr Undefined,
        booted_world\<lparr>Intercom := Falsy, intercomSettings := None, isBooted := False,
          events := events booted_world @ [Forwarded ''shutdown'' [] True]\<rparr>)"
    by (simp add: Let_def)
  from t [of booted_world] a
  have 2: "isBooted (snd (boot demo_env demo_props (Some [''name'' \<mapsto> Str ''Jane''])
        (booted_world\<lparr>Intercom := Falsy, intercomSettings := None, isBooted := False,
           events := events booted_world @ [Forwarded ''shutdown'' [] True],
           Intercom := Callable\<rparr>)))"
    by (simp add: Let_def)
  from t [of demo_world] n
  have 3: "hardShutdown demo_env demo_world = (Inr Undefined, demo_world)" by blast
  have 4: "events booted_world @ [Forwarded ''shutdown'' [] True] =
      [Forwarded ''boot'' [Settings [''app_id'' \<mapsto> Str ''app'']] False,
       Called ''onBoot'', Forwarded ''shutdown'' [] True]"
    by (simp add: b)
  from 2 have 5: "isBooted (snd (boot demo_env demo_props (Some [''name'' \<mapsto> Str ''Jane''])
        ((snd (hardShutdown demo_env booted_world))\<lparr>Intercom := Callable\<rparr>)))"
    by (simp only: 1 snd_conv)
  from 1 have 6: "hardShutdown demo_env booted_world =
       (Inr Undefined,
        booted_world\<lparr>Intercom := Falsy, intercomSettings := None, isBooted := False,
          events := [Forwarded ''boot'' [Settings [''app_id'' \<mapsto> Str ''app'']] False,
                     Called ''onBoot'', Forwarded ''shutdown'' [] True]\<rparr>)"
    by (simp only: 4)
  from a 3 5 6 show ?thesis by blast
qed

text \<open>
  The claim C8 as stated fails twice. Called while not booted, \<^verbatim>\<open>hardShutdown\<close> leaves
  both globals as they are. And after a \<^verbatim>\<open>hardShutdown\<close> that did clear them, \<^verbatim>\<open>boot\<close>
  alone reaches no vendor: the entry point is gone and \<^verbatim>\<open>boot\<close> does not bring it back,
  so no "boot" is forwarded.
\<close>

theorem hardShutdown_leaves_globals:
  "\<not> isBooted demo_world \<and> hardShutdown demo_env demo_world = (Inr Undefined, demo_world)
   \<and> Intercom (snd (hardShutdown demo_env demo_world)) = Callable
   \<and> intercomSettings (snd (hardShutdown demo_env demo_world)) = Some [''foo'' \<mapsto> Num 1]
   \<and> isBooted booted_world
   \<and> Intercom (snd (hardShutdown demo_env booted_world)) = Falsy
   \<and> Intercom (snd (boot demo_env demo_props None (snd (hardShutdown demo_env booted_world))))
       = Falsy
   \<and> forwarded ''boot'' booted_world = 1
   \<and> forwarded ''boot''
        (snd (boot demo_env demo_props None (snd (hardShutdown demo_env booted_world)))) = 1"
proof -
  have b: "booted_world =
      demo_world\<lparr>intercomSettings := Some [''app_id'' \<mapsto> Str ''app''], isBooted := True,
        events := [Forwarded ''boot'' [Settings [''app_id'' \<mapsto> Str ''app'']] False,
                   Called ''onBoot'']\<rparr>"
    by (simp add: booted_world_def boot_def getIntercomSettings_def spreadOpt_def Let_def
        IntercomAPI_def demo_world_def demo_props_def demo_env_def)
  show ?thesis
    by (simp add: b)
       (simp add: hardShutdown_def andThen_def IntercomAPI_def boot_def Let_def forwarded_def
          demo_world_def demo_props_def)
qed

section \<open>The polling primitive: rearming and the saved callback\<close>

lemma useInterval_ok: "hook_ok h \<Longrightarrow> hook_ok (useInterval callback delay h)"
  by (auto simp: hook_ok_def useInterval_def Let_def live_timers_def split: option.splits)

lemma timer_step_ok: "hook_ok h \<Longrightarrow> hook_ok (timer_step h)"
  by (auto simp: hook_ok_def timer_step_def split: option.splits)

lemma hook_run_ok: "hook_ok h \<Longrightarrow> hook_ok (hook_run evs h)"
  unfolding hook_run_def
proof (induction evs arbitrary: h)
  case Nil
  then show ?case by simp
next
  case (Cons ev evs)
  then show ?case by (cases ev) (simp_all add: useInterval_ok timer_step_ok)
qed

lemma initial_hook_ok: "hook_ok initial_hook"
  by (simp add: hook_ok_def initial_hook_def live_timers_def)

lemma useInterval_same_delay:
  "delayDep h = Some delay \<Longrightarrow>
     timer (useInterval callback delay h) = timer h
     \<and> timerCalls (useInterval callback delay h) = timerCalls h"
  by (simp add: useInterval_def Let_def)

lemma useInterval_new_delay:
  "delayDep h \<noteq> Some delay \<Longrightarrow>
     timerCalls (useInterval callback delay h) =
       timerCalls h
       @ (case timer h of None \<Rightarrow> [] | Some (i, ms, e) \<Rightarrow> [ClearInterval i])
       @ (case delay of None \<Rightarrow> [] | Some ms \<Rightarrow> [SetInterval (nextId h) ms])
     \<and> timer (useInterval callback delay h) =
         (case delay of None \<Rightarrow> None | Some ms \<Rightarrow> Some (nextId h, ms, 0))"
  by (auto simp: useInterval_def Let_def split: option.splits)

lemma useInterval_saved:
  "hook_ok h \<Longrightarrow> savedCallback (useInterval callback delay h) = Some callback"
  by (auto simp: hook_ok_def useInterval_def Let_def split: option.splits)

lemma armed_by_last_delay:
  "hook_ok h \<Longrightarrow> delayDep h = Some d0 \<Longrightarrow>
     (case d0 of None \<Rightarrow> timer h = None | Some ms \<Rightarrow> (\<exists>i e. timer h = Some (i, ms, e)))"
  by (auto simp: hook_ok_def split: option.splits)

text \<open>
  C9. For a mounted hook whose last render had the delay \<open>d0\<close>, a timer being armed
  exactly when \<open>d0\<close> is a number: a render with a callback and a delay calls the platform
  exactly when the delay differs from \<open>d0\<close> (\<^verbatim>\<open>null\<close> included). With the same delay the
  timer is untouched, the time elapsed on it included, and no call is made. With another
  delay the armed timer, if any, is cleared by its id, and then, unless the new delay is
  \<^verbatim>\<open>null\<close>, a timer with the new delay is set and starts counting from zero. Either way the
  armed timer is the only one alive, one is armed exactly when the new delay is a number, and
  the next tick runs the callback of this render.
\<close>

theorem useInterval_rearms_on_delay_change:
  "delayDep (hook_run evs initial_hook) = Some d0 \<Longrightarrow>
     (let h = hook_run evs initial_hook; h' = useInterval callback delay h
      in (timerCalls h' \<noteq> timerCalls h) = (delay \<noteq> d0)
         \<and> (case d0 of None \<Rightarrow> timer h = None | Some ms \<Rightarrow> (\<exists>i e. timer h = Some (i, ms, e)))
         \<and> (delay = d0 \<longrightarrow> timer h' = timer h \<and> timerCalls h' = timerCalls h)
         \<and> (delay \<noteq> d0 \<longrightarrow>
              timerCalls h' =
                timerCalls h
                @ (case timer h of None \<Rightarrow> [] | Some (i, ms, e) \<Rightarrow> [ClearInterval i])
                @ (case delay of None \<Rightarrow> [] | Some ms \<Rightarrow> [SetInterval (nextId h) ms])
              \<and> timer h' = (case delay of None \<Rightarrow> None | Some ms \<Rightarrow> Some (nextId h, ms, 0)))
         \<and> live_timers (timerCalls h')
             = (case timer h' of None \<Rightarrow> [] | Some (i, ms, e) \<Rightarrow> [(i, ms)])
         \<and> (case delay of None \<Rightarrow> timer h' = None
             | Some ms \<Rightarrow> (\<exists>i e. timer h' = Some (i, ms, e)))
         \<and> tick h' = Some callback)"
proof -
  assume d: "delayDep (hook_run evs initial_hook) = Some d0"
  let ?h = "hook_run evs (initial_hook :: 'a interval_hook)"
  let ?h' = "useInterval callback delay ?h"
  have ok: "hook_ok ?h" by (rule hook_run_ok [OF initial_hook_ok])
  have ok': "hook_ok ?h'" by (rule useInterval_ok [OF ok])
  have dd: "delayDep ?h' = Some delay"
    by (auto simp: useInterval_def Let_def split: option.splits)
  have armed: "case d0 of None \<Rightarrow> timer ?h = None
               | Some ms \<Rightarrow> (\<exists>i e. timer ?h = Some (i, ms, e))"
    by (rule armed_by_last_delay [OF ok d])
  have armed': "case delay of None \<Rightarrow> timer ?h' = None
               | Some ms \<Rightarrow> (\<exists>i e. timer ?h' = Some (i, ms, e))"
    by (rule armed_by_last_delay [OF ok' dd])
  have live: "live_timers (timerCalls ?h')
      = (case timer ?h' of None \<Rightarrow> [] | Some (i, ms, e) \<Rightarrow> [(i, ms)])"
    using ok' by (simp add: hook_ok_def)
  have same: "delay = d0 \<Longrightarrow> timer ?h' = timer ?h \<and> timerCalls ?h' = timerCalls ?h"
    using useInterval_same_delay [of ?h delay callback] d by simp
  have new: "delay \<noteq> d0 \<Longrightarrow>
      timerCalls ?h' =
        timerCalls ?h
        @ (case timer ?h of None \<Rightarrow> [] | Some (i, ms, e) \<Rightarrow> [ClearInterval i])
        @ (case delay of None \<Rightarrow> [] | Some ms \<Rightarrow> [SetInterval (nextId ?h) ms])
      \<and> timer ?h' = (case delay of None \<Rightarrow> None | Some ms \<Rightarrow> Some (nextId ?h, ms, 0))"
    using useInterval_new_delay [of ?h delay callback] d by simp
  have changed: "delay \<noteq> d0 \<Longrightarrow> timerCalls ?h' \<noteq> timerCalls ?h"
    using new armed by (cases d0; cases delay) auto
  have saved: "tick ?h' = Some callback"
    using useInterval_saved [OF ok, of callback delay] by (simp add: tick_def)
  show ?thesis
    unfolding Let_def using armed armed' live same new changed saved by blast
qed

theorem useInterval_rearms_on_delay_change_witness:
  "delayDep (hook_run [Render ''a'' (Some 1000), Millisecond, Millisecond, Millisecond] initial_hook)
     = Some (Some 1000)
   \<and> timer (hook_run [Render ''a'' (Some 1000), Millisecond, Millisecond, Millisecond] initial_hook)
     = Some (0, 1000, 3)
   \<and> timer (useInterval ''b'' (Some 1000)
        (hook_run [Render ''a'' (Some 1000), Millisecond, Millisecond, Millisecond] initial_hook))
     = Some (0, 1000, 3)
   \<and> tick (useInterval ''b'' (Some 1000)
        (hook_run [Render ''a'' (Some 1000), Millisecond, Millisecond, Millisecond] initial_hook))
     = Some ''b''
   \<and> timerCalls (useInterval ''b'' (Some 1000)
        (hook_run [Render ''a'' (Some 1000), Millisecond, Millisecond, Millisecond] initial_hook))
     = [SetInterval 0 1000]
   \<and> timerCalls (useInterval ''b'' None
        (hook_run [Render ''a'' (Some 1000), Millisecond, Millisecond, Millisecond] initial_hook))
     = [SetInterval 0 1000, ClearInterval 0]
   \<and> timer (useInterval ''b'' None
        (hook_run [Render ''a'' (Some 1000), Millisecond, Millisecond, Millisecond] initial_hook))
     = None
   \<and> timerCalls (useInterval ''b'' (Some 500)
        (hook_run [Render ''a'' (Some 1000), Millisecond, Millisecond, Millisecond] initial_hook))
     = [SetInterval 0 1000, ClearInterval 0, SetInterval 1 500]
   \<and> timer (useInterval ''b'' (Some 500)
        (hook_run [Render ''a'' (Some 1000), Millisecond, Millisecond, Millisecond] initial_hook))
     = Some (1, 500, 0)
   \<and> live_timers (timerCalls (useInterval ''b'' (Some 500)
        (hook_run [Render ''a'' (Some 1000), Millisecond, Millisecond, Millisecond] initial_hook)))
     = [(1, 500)]"
proof -
  let ?h = "hook_run [Render ''a'' (Some 1000), Millisecond, Millisecond, Millisecond] initial_hook"
  have h: "?h = \<lparr>savedCallback = Some ''a'', callbackDep = Some ''a'',
      delayDep = Some (Some 1000), timer = Some (0, 1000, 3), nextId = 1,
      timerCalls = [SetInterval 0 1000]\<rparr>"
    by (simp add: hook_run_def useInterval_def initial_hook_def timer_step_def Let_def)
  have d: "delayDep ?h = Some (Some 1000)" by (simp add: h)
  note t = useInterval_rearms_on_delay_change [OF d, where callback = "''b''", unfolded Let_def]
  from t [of "Some 1000"]
  have same: "timer (useInterval ''b'' (Some 1000) ?h) = Some (0, 1000, 3)
      \<and> timerCalls (useInterval ''b'' (Some 1000) ?h) = [SetInterval 0 1000]
      \<and> tick (useInterval ''b'' (Some 1000) ?h) = Some ''b''"
    by (simp add: h)
  from t [of None]
  have none: "timerCalls (useInterval ''b'' None ?h) = [SetInterval 0 1000, ClearInterval 0]
      \<and> timer (useInterval ''b'' None ?h) = None"
    by (simp add: h)
  from t [of "Some 500"]
  have other: "timerCalls (useInterval ''b'' (Some 500) ?h)
        = [SetInterval 0 1000, ClearInterval 0, SetInterval 1 500]
      \<and> timer (useInterval ''b'' (Some 500) ?h) = Some (1, 500, 0)"
    by (simp add: h)
  from t [of "Some 500"]
  have "live_timers (timerCalls (useInterval ''b'' (Some 500) ?h))
       = (case timer (useInterval ''b'' (Some 500) ?h) of None \<Rightarrow> []
          | Some (i, ms, e) \<Rightarrow> [(i, ms)])"
    by blast
  with other have live: "live_timers (timerCalls (useInterval ''b'' (Some 500) ?h)) = [(1, 500)]"
    by simp
  have v: "timer ?h = Some (0, 1000, 3)" by (simp add: h)
  from d v same none other live show ?thesis by blast
qed

section \<open>Commands forwarded before booting\<close>

lemma orderly_ret: "orderly w \<Longrightarrow> orderly (snd (ret v w))"
  by (simp add: ret_def)

lemma orderly_andThen:
  "orderly (snd (m w)) \<Longrightarrow> (\<And>v w'. orderly w' \<Longrightarrow> orderly (snd (f v w'))) \<Longrightarrow>
     orderly (snd (andThen m f w))"
  by (cases "m w"; cases "fst (m w)") (simp_all add: andThen_def)

lemma orderly_settle: "orderly (snd r) \<Longrightarrow> orderly (settle r)"
  by (cases r; cases "fst r") (simp_all add: settle_def orderly_def in_order_def)

lemma orderly_early:
  "orderly w \<Longrightarrow> c \<in> {''boot'', ''onHide'', ''onShow'', ''onUnreadCountChange''} \<Longrightarrow>
     orderly (snd (IntercomAPI env c as w))"
  by (simp add: IntercomAPI_def orderly_def in_order_def)

lemma orderly_forward:
  "orderly w \<Longrightarrow> isBooted w \<Longrightarrow> orderly (snd (IntercomAPI env c as w))"
  by (simp add: IntercomAPI_def orderly_def in_order_def)

lemma orderly_boot: "orderly w \<Longrightarrow> orderly (snd (boot env p props w))"
  by (auto simp: orderly_def boot_def Let_def IntercomAPI_def log_def in_order_def)

lemma orderly_init:
  assumes "orderly w"
  shows "orderly (snd (initializeAndAttachListeners env p w))"
proof -
  have "orderly (initialize (appId p) (initializeDelay p) w)"
    using assms by (simp add: initialize_def orderly_def in_order_def)
  then have start: "orderly (if onInitialize p
       then (initialize (appId p) (initializeDelay p) w)
              \<lparr>events := events (initialize (appId p) (initializeDelay p) w)
                           @ [Called ''onInitialize'']\<rparr>
       else initialize (appId p) (initializeDelay p) w)"
    by (simp add: orderly_def in_order_def)
  have listener: "orderly (snd ((if b then IntercomAPI env c as else ret Undefined) w'))"
    if "orderly w'" "c \<in> {''boot'', ''onHide'', ''onShow'', ''onUnreadCountChange''}"
    for b c as w'
    using that by (simp add: orderly_early orderly_ret del: insert_iff)
  have last: "orderly (snd ((if autoBoot p then boot env p None else ret Undefined) w'))"
    if "orderly w'" for w'
    using that by (simp add: orderly_boot orderly_ret)
  show ?thesis
    unfolding initializeAndAttachListeners_def Let_def
    by (intro orderly_andThen listener last start) simp_all
qed

lemma orderly_render:
  assumes "orderly w"
  shows "orderly (snd (render env p w))"
proof -
  have logged: "orderly (if b then log l m w else w)" for b l m
    using assms by (simp add: log_def orderly_def in_order_def)
  have first: "orderly (snd ((if b then initializeAndAttachListeners env p else ret Undefined) w'))"
    if "orderly w'" for b w'
    using that by (simp add: orderly_init orderly_ret)
  have second: "orderly (snd (Inr Undefined :: error + jsval, w'\<lparr>interval := h\<rparr>))"
    if "orderly w'" for w' h
    using that by (simp add: orderly_def)
  show ?thesis
    unfolding render_def Let_def by (intro orderly_andThen first second logged)
qed

lemma orderly_pingCallback: "orderly w \<Longrightarrow> orderly (snd (pingCallback env p w))"
proof -
  assume o: "orderly w"
  have "orderly (snd (setPing env p v w'))" if "orderly w'" for v w'
    using that orderly_render [of "w'\<lparr>ping := v\<rparr>" env p]
    by (simp add: setPing_def orderly_def)
  then have "orderly (snd (andThen (initializeAndAttachListeners env p)
                             (\<lambda>_. setPing env p False) w))"
    using o by (intro orderly_andThen orderly_init)
  with o show ?thesis by (simp add: pingCallback_def)
qed

lemma orderly_fire: "orderly w \<Longrightarrow> orderly (fire env w)"
  by (simp add: fire_def orderly_settle orderly_pingCallback split: option.splits)

lemma orderly_millisecond: "orderly w \<Longrightarrow> orderly (millisecond env w)"
  using orderly_fire [of "w\<lparr>clock := clock w + 1, interval := timer_step (interval w)\<rparr>" env]
  by (simp add: millisecond_def Let_def orderly_def)

lemma orderly_elapse: "orderly w \<Longrightarrow> orderly (elapse env n w)"
  unfolding elapse_def by (induction n) (simp_all add: orderly_millisecond)

lemma orderly_shutdown: "orderly w \<Longrightarrow> orderly (snd (shutdown env w))"
  by (auto simp: shutdown_def andThen_def IntercomAPI_def orderly_def in_order_def)

lemma orderly_hardShutdown: "orderly w \<Longrightarrow> orderly (snd (hardShutdown env w))"
  by (auto simp: hardShutdown_def andThen_def IntercomAPI_def orderly_def in_order_def)

lemma orderly_ensureIntercom:
  "orderly w \<Longrightarrow> (isBooted w \<Longrightarrow> orderly (snd (callback w))) \<Longrightarrow>
     orderly (snd (ensureIntercom p name callback w))"
  by (auto simp: ensureIntercom_def Let_def log_def orderly_def in_order_def)

lemma orderly_guarded:
  "orderly w \<Longrightarrow> (isBooted w \<Longrightarrow> orderly (snd (callback w))) \<Longrightarrow>
     orderly (snd (andThen (ensureIntercom p name callback) (\<lambda>_. ret v) w))"
  by (intro orderly_andThen orderly_ensureIntercom orderly_ret)

lemma orderly_forward_ret:
  "orderly w \<Longrightarrow> isBooted w \<Longrightarrow>
     orderly (snd (andThen (IntercomAPI env c as) (\<lambda>_. ret v) w))"
  by (intro orderly_andThen orderly_forward orderly_ret)

lemma orderly_refresh: "orderly w \<Longrightarrow> orderly (snd (refresh env p w))"
  unfolding refresh_def by (intro orderly_guarded orderly_forward_ret)

lemma orderly_update: "orderly w \<Longrightarrow> orderly (snd (update env p props w))"
proof (cases props)
  case None
  assume "orderly w"
  then show ?thesis
    unfolding update_def None option.case
    by (intro orderly_guarded orderly_andThen orderly_refresh orderly_ret)
next
  case (Some x)
  assume o: "orderly w"
  have "orderly (w\<lparr>intercomSettings := s\<rparr>)" for s using o by (simp add: orderly_def)
  then show ?thesis
    using o unfolding update_def Some option.case Let_def
    by (intro orderly_guarded orderly_forward_ret) simp_all
qed

lemma orderly_perform: "orderly w \<Longrightarrow> orderly (snd (perform env p c w))"
proof (cases c)
  case (Update props)
  assume "orderly w"
  then show ?thesis by (simp add: Update orderly_update)
next
  case (ShowNewMessages m)
  assume "orderly w"
  then show ?thesis
    unfolding ShowNewMessages perform.simps showNewMessages_def
    by (cases m) (auto intro!: orderly_guarded orderly_forward_ret)
next
  case (TrackEvent e m)
  assume "orderly w"
  then show ?thesis
    unfolding TrackEvent perform.simps trackEvent_def
    by (cases m) (auto intro!: orderly_guarded orderly_forward_ret)
qed (simp_all add: orderly_boot orderly_shutdown orderly_hardShutdown hide_def show_cmd_def
      showMessages_def getVisitorId_def startTour_def orderly_guarded orderly_forward_ret
      orderly_ensureIntercom orderly_forward)

lemma orderly_exec: "orderly w \<Longrightarrow> orderly (exec env p s w)"
  by (cases s)
     (simp_all add: orderly_settle orderly_perform orderly_elapse orderly_render,
      simp add: orderly_def)

lemma orderly_run: "orderly w \<Longrightarrow> orderly (run env p steps w)"
  unfolding run_def by (induction steps arbitrary: w) (simp_all add: orderly_exec)

lemma orderly_mount: "orderly (snd (mount env p now h s))"
  unfolding mount_def by (rule orderly_render) (simp add: orderly_def)

text \<open>
  C3, as amended. From the mount on, through any sequence of calls, elapsed time, renders
  and outside assignments to the globals, a command forwarded while booted is false is
  "boot" itself or one of the listener registrations of the initialization (\<^verbatim>\<open>onHide\<close>,
  \<^verbatim>\<open>onShow\<close>, \<^verbatim>\<open>onUnreadCountChange\<close>): every other command is forwarded while booted
  is true.
\<close>

theorem early_forwards_are_boot_or_listeners:
  "Forwarded c as False \<in> set (events (run env p steps (settle (mount env p now h s)))) \<Longrightarrow>
     c \<in> {''boot'', ''onHide'', ''onShow'', ''onUnreadCountChange''}"
proof -
  assume mem: "Forwarded c as False \<in> set (events (run env p steps (settle (mount env p now h s))))"
  have "list_all in_order (events (run env p steps (settle (mount env p now h s))))"
    using orderly_run [OF orderly_settle [OF orderly_mount]] by (simp add: orderly_def)
  with mem have "in_order (Forwarded c as False)" by (simp add: list_all_iff)
  then show ?thesis by (simp add: in_order_def)
qed

theorem early_forwards_are_boot_or_listeners_witness:
  "events (run demo_env demo_props [Call (Boot None), Call Hide, Call Shutdown]
             (settle (mount demo_env demo_props 0 Callable None)))
     = [Forwarded ''boot'' [Settings [''app_id'' \<mapsto> Str ''app'']] False, Called ''onBoot'',
        Forwarded ''hide'' [] True, Forwarded ''shutdown'' [] True]
   \<and> ''boot'' \<in> {''boot'', ''onHide'', ''onShow'', ''onUnreadCountChange''}"
proof -
  have ev: "events (run demo_env demo_props [Call (Boot None), Call Hide, Call Shutdown]
             (settle (mount demo_env demo_props 0 Callable None)))
     = [Forwarded ''boot'' [Settings [''app_id'' \<mapsto> Str ''app'']] False, Called ''onBoot'',
        Forwarded ''hide'' [] True, Forwarded ''shutdown'' [] True]"
    by (simp add: run_def mount_def render_def settle_def boot_def hide_def shutdown_def
        ensureIntercom_def getIntercomSettings_def spreadOpt_def IntercomAPI_def andThen_def
        ret_def Let_def demo_props_def demo_env_def)
  then have "Forwarded ''boot'' [Settings [''app_id'' \<mapsto> Str ''app'']] False
      \<in> set (events (run demo_env demo_props [Call (Boot None), Call Hide, Call Shutdown]
             (settle (mount demo_env demo_props 0 Callable None))))"
    by simp
  from early_forwards_are_boot_or_listeners [OF this] ev show ?thesis by blast
qed

text \<open>
  The claim C3 as stated fails: \<^verbatim>\<open>boot\<close> forwards "boot" before it sets booted, and the
  initialization registers its listeners without looking at booted.
\<close>

theorem boot_forwards_before_booted:
  "\<not> isBooted demo_world
   \<and> events (snd (boot demo_env demo_props None demo_world))
       = [Forwarded ''boot'' [Settings [''app_id'' \<mapsto> Str ''app'']] False, Called ''onBoot'']
   \<and> events (snd (initializeAndAttachListeners demo_env (demo_props\<lparr>onHide := True\<rparr>)
                     demo_world))
       = [Initialized ''app'' None, Forwarded ''onHide'' [Callback ''onHide''] False]"
  by (simp add: boot_def getIntercomSettings_def spreadOpt_def IntercomAPI_def Let_def
      initializeAndAttachListeners_def initialize_def andThen_def ret_def
      demo_props_def demo_env_def demo_world_def)

section \<open>Pinging for an external instance\<close>

lemma idle_millisecond:
  "timer (interval w) = None \<Longrightarrow> millisecond env w = w\<lparr>clock := clock w + 1\<rparr>"
  by (simp add: millisecond_def timer_due_def timer_step_def Let_def)

lemma idle_elapse:
  "timer (interval w) = None \<Longrightarrow> elapse env n w = w\<lparr>clock := clock w + int n\<rparr>"
  unfolding elapse_def
proof (induction n arbitrary: w)
  case 0
  then show ?case by simp
next
  case (Suc n)
  have "(millisecond env ^^ Suc n) w = (millisecond env ^^ n) (millisecond env w)"
    by (simp add: funpow_swap1)
  also have "\<dots> = (millisecond env ^^ n) (w\<lparr>clock := clock w + 1\<rparr>)"
    using Suc.prems by (simp add: idle_millisecond)
  also have "\<dots> = w\<lparr>clock := clock w + 1 + int n\<rparr>"
    using Suc.IH [of "w\<lparr>clock := clock w + 1\<rparr>"] Suc.prems by simp
  finally show ?case by (simp add: add.assoc)
qed

lemma external_mount:
  "externalIntercom p \<Longrightarrow>
     mount env p now h s =
       (Inr Undefined,
        \<lparr>Intercom = h, intercomSettings = s, isBooted = False, ping = True, start = now,
         clock = now,
         interval = \<lparr>savedCallback = Some p, callbackDep = Some p, delayDep = Some None,
                     timer = None, nextId = 0, timerCalls = []\<rparr>,
         events = (if rest p \<noteq> [] \<and> DEV env
                   then [Logged ''error'' (invalid_props_message (rest p))] else [])\<rparr>)"
  by (simp add: mount_def render_def Let_def andThen_def ret_def log_def delayArg_def
      useInterval_def initial_hook_def)

lemma external_never_initializes:
  "externalIntercom p \<Longrightarrow>
     elapse env n (settle (mount env p now h s))
       = (settle (mount env p now h s))\<lparr>clock := now + int n\<rparr>
     \<and> initializations (elapse env n (settle (mount env p now h s))) = 0"
proof -
  assume e: "externalIntercom p"
  have t: "timer (interval (settle (mount env p now h s))) = None"
    by (simp add: external_mount [OF e] settle_def)
  have c: "clock (settle (mount env p now h s)) = now"
    by (simp add: external_mount [OF e] settle_def)
  have i: "initializations (settle (mount env p now h s)) = 0"
    by (simp add: external_mount [OF e] settle_def initializations_def)
  show ?thesis
    using idle_elapse [OF t, of env n] c i by (simp add: initializations_def)
qed

text \<open>
  C1 fails on the code. With \<^verbatim>\<open>externalIntercom\<close> true the hook is handed the delay
  \<^verbatim>\<open>null\<close> while pinging, so no timer is armed: sixty seconds after the mount, twice the
  fallback delay, nothing has been initialized and nothing at all has happened.
\<close>

theorem external_fallback_never_runs:
  "externalIntercom waiting_props \<and> externalIntercomFallback waiting_props
   \<and> externalIntercomFallbackDelay waiting_props = 30000 \<and> shouldInitialize waiting_props
   \<and> \<not> isSSR demo_env
   \<and> timer (interval (settle (mount demo_env waiting_props 0 Falsy None))) = None
   \<and> elapse demo_env 60000 (settle (mount demo_env waiting_props 0 Falsy None))
       = (settle (mount demo_env waiting_props 0 Falsy None))\<lparr>clock := 60000\<rparr>
   \<and> initializations (elapse demo_env 60000 (settle (mount demo_env waiting_props 0 Falsy None))) = 0
   \<and> events (elapse demo_env 60000 (settle (mount demo_env waiting_props 0 Falsy None))) = []"
proof -
  let ?w = "settle (mount demo_env waiting_props 0 Falsy None)"
  have e: "externalIntercom waiting_props" by (simp add: waiting_props_def)
  have p: "externalIntercomFallback waiting_props
      \<and> externalIntercomFallbackDelay waiting_props = 30000 \<and> shouldInitialize waiting_props
      \<and> \<not> isSSR demo_env"
    by (simp add: waiting_props_def demo_props_def demo_env_def)
  have r: "rest waiting_props = []" by (simp add: waiting_props_def demo_props_def)
  have t: "timer (interval ?w) = None \<and> events ?w = []"
    by (simp add: external_mount [OF e] settle_def r)
  note run = external_never_initializes [OF e, of demo_env 60000 0 Falsy None]
  from run have r1: "elapse demo_env 60000 ?w = ?w\<lparr>clock := 60000\<rparr>"
    and r2: "initializations (elapse demo_env 60000 ?w) = 0"
    by (simp, blast)
  from t have "events (?w\<lparr>clock := 60000\<rparr>) = []" by simp
  then have r3: "events (elapse demo_env 60000 ?w) = []" by (simp only: r1)
  from e p t r1 r2 r3 show ?thesis by blast
qed























end
